theory Spec2Isabelle
  imports Main "HOL-Library.Word"
begin

unbundle bit_operations_syntax

section \<open>Data model of the blindscan module\<close>

text \<open>
  The C module works on \<open>uint32_t\<close> frequencies (kHz) and symbol rates (symbols/s) and on
  \<open>int32_t\<close> levels (0.01 dB).  Unsigned 32-bit values are \<open>32 word\<close>, so that every
  \<open>+\<close>, \<open>-\<close> and \<open>*\<close> wraps as in C.  Levels are \<open>int\<close>: both acquirers store
  \<open>driver_level / 10\<close>, hence every stored level lies within a tenth of the \<open>int32_t\<close>
  range and the sums and differences formed below (\<open>min_level + 1000\<close>, \<open>peak_level - 600\<close>,
  \<open>weaker_peak - valley_level\<close>) stay inside \<open>int32_t\<close>.  Array indices (\<open>size_t\<close>) are
  \<open>nat\<close>.  Allocation failures (\<open>malloc\<close> returning \<open>NULL\<close>) are not modelled.
\<close>

type_synonym u32 = "32 word"

text \<open>\<open>blindscan_spectrum_point_t\<close>: one frequency/level sample.\<close>

record blindscan_spectrum_point =
  pt_frequency :: u32
  pt_level :: int

text \<open>\<open>blindscan_spectral_peak_t\<close>: a candidate as delivered to the worker.\<close>

record blindscan_spectral_peak =
  sp_frequency :: u32
  sp_symbol_rate :: u32
  sp_snr :: int
  sp_level :: int

text \<open>The local \<open>candidate_t\<close> of \<open>blindscan_detect_peaks\<close>.\<close>

record candidate_t =
  idx :: nat
  c_level :: int

type_synonym spectrum = "blindscan_spectrum_point list"

section \<open>The software peak detector (\<open>blindscan_detect_peaks\<close>)\<close>

subsection \<open>Step 1: minimum level\<close>

definition min_level_of :: "spectrum \<Rightarrow> int" where
  "min_level_of sd =
     fold (\<lambda>p m. if pt_level p < m then pt_level p else m) (tl sd) (pt_level (hd sd))"

subsection \<open>Step 2: local-maximum sweep\<close>

definition window :: nat where
  "window = 20"

definition half_win :: nat where
  "half_win = window div 2"

text \<open>The inner loop over \<open>j = i - half_win .. i + half_win\<close>: no other sample of the
  window is strictly above sample \<open>i\<close>.\<close>

definition is_local_max :: "spectrum \<Rightarrow> nat \<Rightarrow> bool" where
  "is_local_max sd i =
     list_all (\<lambda>j. \<not> (j \<noteq> i \<and> pt_level (sd ! j) > pt_level (sd ! i)))
       [i - half_win ..< i + half_win + 1]"

text \<open>The outer loop \<open>for (i = half_win; i < n - half_win && num_cand < 512; i++)\<close>,
  started at index \<open>i\<close> with \<open>num_cand\<close> candidates already stored; it returns the
  candidates stored from there on, in the order they are appended.\<close>

function find_candidates :: "spectrum \<Rightarrow> int \<Rightarrow> nat \<Rightarrow> nat \<Rightarrow> candidate_t list" where
  "find_candidates sd peak_threshold i num_cand =
     (if i < length sd - half_win \<and> num_cand < 512 then
        (if pt_level (sd ! i) < peak_threshold then
           find_candidates sd peak_threshold (i + 1) num_cand
         else if is_local_max sd i then
           \<lparr>idx = i, c_level = pt_level (sd ! i)\<rparr>
             # find_candidates sd peak_threshold (i + half_win + 1) (num_cand + 1)
         else find_candidates sd peak_threshold (i + 1) num_cand)
      else [])"
  by pat_completeness auto
termination
  by (relation "measure (\<lambda>(sd, t, i, k). length sd - i)") auto

declare find_candidates.simps [simp del]

subsection \<open>Step 3: valley-based merging\<close>

definition min_valley_depth :: int where
  "min_valley_depth = 400"

definition weaker_peak :: "candidate_t \<Rightarrow> candidate_t \<Rightarrow> int" where
  "weaker_peak prev cur = (if c_level prev < c_level cur then c_level prev else c_level cur)"

definition valley_level :: "spectrum \<Rightarrow> candidate_t \<Rightarrow> candidate_t \<Rightarrow> int" where
  "valley_level sd prev cur =
     fold (\<lambda>j v. if pt_level (sd ! j) < v then pt_level (sd ! j) else v)
       [idx prev + 1 ..< idx cur] (weaker_peak prev cur)"

definition valley_depth :: "spectrum \<Rightarrow> candidate_t \<Rightarrow> candidate_t \<Rightarrow> int" where
  "valley_depth sd prev cur = weaker_peak prev cur - valley_level sd prev cur"

text \<open>The merge loop.  \<open>prev\<close> is the last entry \<open>merged[num_merged - 1]\<close>, the only one the
  loop can still overwrite; the entries before it are final and are emitted.\<close>

fun merge_from :: "spectrum \<Rightarrow> candidate_t \<Rightarrow> candidate_t list \<Rightarrow> candidate_t list" where
  "merge_from sd prev [] = [prev]"
| "merge_from sd prev (cur # rest) =
     (if valley_depth sd prev cur \<ge> min_valley_depth then
        prev # merge_from sd cur rest
      else if c_level cur > c_level prev then merge_from sd cur rest
      else merge_from sd prev rest)"

definition valley_merge :: "spectrum \<Rightarrow> candidate_t list \<Rightarrow> candidate_t list" where
  "valley_merge sd candidates =
     (case candidates of [] \<Rightarrow> [] | c # rest \<Rightarrow> merge_from sd c rest)"

subsection \<open>Step 4: -6 dB bandwidth and symbol rate\<close>

text \<open>\<open>for (j = peak_idx; j > 0; j--)\<close>, with the current \<open>left_idx\<close>.\<close>

fun left_edge :: "spectrum \<Rightarrow> int \<Rightarrow> nat \<Rightarrow> nat \<Rightarrow> nat" where
  "left_edge sd edge_level 0 left_idx = left_idx"
| "left_edge sd edge_level (Suc j) left_idx =
     (if pt_level (sd ! Suc j) < edge_level then Suc j
      else left_edge sd edge_level j (Suc j))"

text \<open>\<open>for (j = peak_idx; j < n; j++)\<close>, with the current \<open>right_idx\<close>.\<close>

function right_edge :: "spectrum \<Rightarrow> int \<Rightarrow> nat \<Rightarrow> nat \<Rightarrow> nat" where
  "right_edge sd edge_level j right_idx =
     (if j < length sd then
        (if pt_level (sd ! j) < edge_level then j
         else right_edge sd edge_level (j + 1) j)
      else right_idx)"
  by pat_completeness auto
termination
  by (relation "measure (\<lambda>(sd, e, j, r). length sd - j)") auto

declare right_edge.simps [simp del]

definition symbol_rate_of_bandwidth :: "u32 \<Rightarrow> u32" where
  "symbol_rate_of_bandwidth bandwidth_khz =
     (let symbol_rate = bandwidth_khz * 800;
          symbol_rate = (if symbol_rate < 1000000 then 2000000 else symbol_rate);
          symbol_rate = (if symbol_rate > 45000000 then 45000000 else symbol_rate)
      in symbol_rate)"

definition output_peak :: "spectrum \<Rightarrow> int \<Rightarrow> candidate_t \<Rightarrow> blindscan_spectral_peak" where
  "output_peak sd min_level m =
     (let peak_idx = idx m;
          peak_level = c_level m;
          edge_level = peak_level - 600;
          left_idx = left_edge sd edge_level peak_idx peak_idx;
          right_idx = right_edge sd edge_level peak_idx peak_idx;
          bandwidth_khz = pt_frequency (sd ! right_idx) - pt_frequency (sd ! left_idx);
          center_freq = (pt_frequency (sd ! left_idx) + pt_frequency (sd ! right_idx)) div 2
      in \<lparr>sp_frequency = center_freq,
          sp_symbol_rate = symbol_rate_of_bandwidth bandwidth_khz,
          sp_snr = peak_level - min_level,
          sp_level = peak_level\<rparr>)"

subsection \<open>The detector\<close>

text \<open>The candidates of step 2 and the kept peaks of step 3 for a buffer.\<close>

definition detect_candidates :: "spectrum \<Rightarrow> int \<Rightarrow> candidate_t list" where
  "detect_candidates sd threshold_db =
     find_candidates sd (min_level_of sd + threshold_db) half_win 0"

definition detect_merged :: "spectrum \<Rightarrow> int \<Rightarrow> candidate_t list" where
  "detect_merged sd threshold_db = valley_merge sd (detect_candidates sd threshold_db)"

definition blindscan_detect_peaks :: "spectrum \<Rightarrow> int \<Rightarrow> int \<Rightarrow> blindscan_spectral_peak list" where
  "blindscan_detect_peaks sd max_peaks threshold_db =
     (if length sd < 100 then []
      else map (output_peak sd (min_level_of sd))
             (take (nat max_peaks) (detect_merged sd threshold_db)))"

text \<open>Two kept peaks are \<^emph>\<open>separated\<close> when the merge loop's own test keeps them apart.\<close>

definition separated :: "spectrum \<Rightarrow> candidate_t \<Rightarrow> candidate_t \<Rightarrow> bool" where
  "separated sd p q \<longleftrightarrow> valley_depth sd p q \<ge> min_valley_depth"

section \<open>Deduplication of driver candidates (in \<open>blindscan_worker\<close>)\<close>

definition dedupe_thresh :: u32 where
  "dedupe_thresh = 2000"

text \<open>\<open>diff = (a > b) ? (a - b) : (b - a)\<close> on \<open>uint32_t\<close>.\<close>

definition freq_diff :: "u32 \<Rightarrow> u32 \<Rightarrow> u32" where
  "freq_diff a b = (if a > b then a - b else b - a)"

text \<open>The inner loop over \<open>deduped_peaks[0 .. deduped-1]\<close> for one candidate \<open>p\<close>:
  \<open>Some\<close> of the updated array when an entry within the threshold was found (\<open>is_dup\<close>,
  the loop breaks at the first one), \<open>None\<close> otherwise.\<close>

fun dedup_scan ::
  "blindscan_spectral_peak \<Rightarrow> blindscan_spectral_peak list \<Rightarrow> blindscan_spectral_peak list option"
where
  "dedup_scan p [] = None"
| "dedup_scan p (d # ds) =
     (if freq_diff (sp_frequency p) (sp_frequency d) < dedupe_thresh then
        Some ((if sp_level p > sp_level d then p else d) # ds)
      else map_option ((#) d) (dedup_scan p ds))"

definition dedup_step ::
  "blindscan_spectral_peak list \<Rightarrow> blindscan_spectral_peak \<Rightarrow> blindscan_spectral_peak list"
where
  "dedup_step deduped_peaks p =
     (case dedup_scan p deduped_peaks of
        Some ds \<Rightarrow> ds
      | None \<Rightarrow> if length deduped_peaks < 512 then deduped_peaks @ [p] else deduped_peaks)"

definition dedup_loop :: "blindscan_spectral_peak list \<Rightarrow> blindscan_spectral_peak list" where
  "dedup_loop driver_peaks = fold (\<lambda>p deduped_peaks. dedup_step deduped_peaks p) driver_peaks []"

text \<open>The whole block: it runs for more than one candidate, and the result replaces
  \<open>driver_peaks\<close> only when it is shorter.\<close>

definition dedup_driver_peaks :: "blindscan_spectral_peak list \<Rightarrow> blindscan_spectral_peak list" where
  "dedup_driver_peaks driver_peaks =
     (if length driver_peaks > 1 then
        (let deduped_peaks = dedup_loop driver_peaks
         in if length deduped_peaks < length driver_peaks then deduped_peaks else driver_peaks)
      else driver_peaks)"

section \<open>Session, peaks and muxes\<close>

datatype blindscan_peak_status =
  BLINDSCAN_PEAK_PENDING | BLINDSCAN_PEAK_SCANNING | BLINDSCAN_PEAK_LOCKED
  | BLINDSCAN_PEAK_FAILED | BLINDSCAN_PEAK_SKIPPED

datatype blindscan_state =
  BLINDSCAN_STATE_IDLE | BLINDSCAN_STATE_ACQUIRING | BLINDSCAN_STATE_SCANNING
  | BLINDSCAN_STATE_COMPLETE | BLINDSCAN_STATE_CANCELLED | BLINDSCAN_STATE_ERROR

text \<open>Modelled from the spec: the polarisation enumeration \<open>DVB_POLARISATION_*\<close> is
  declared in the host's \<open>dvb.h\<close>, outside this module.  The selector is one of H, V or
  both (\<open>-1\<close>); H and V are taken as the enumeration's first two values.\<close>

definition DVB_POLARISATION_HORIZONTAL :: int where
  "DVB_POLARISATION_HORIZONTAL = 0"

definition DVB_POLARISATION_VERTICAL :: int where
  "DVB_POLARISATION_VERTICAL = 1"

text \<open>\<open>blindscan_peak_t\<close>, with the fields the worker and the peaks report use before a
  prescan (the lock-result fields are zero after \<open>calloc\<close> and are left out).\<close>

record blindscan_peak =
  bp_frequency :: u32
  bp_symbol_rate :: u32
  bp_polarisation :: int
  bp_level :: int
  bp_snr :: int
  bp_status :: blindscan_peak_status
  bp_stream_id :: int
  bp_verified_freq :: u32
  bp_verified_sr :: u32

text \<open>Modelled from the spec: the rolloff enumeration of the host's mux configuration is
  declared outside this module.  These are the values \<open>blindscan_mux_half_bandwidth\<close>
  distinguishes; every other value (\<open>DVB_ROLLOFF_OTHER\<close>) takes the default 0.35.\<close>

datatype dvb_rolloff =
  DVB_ROLLOFF_20 | DVB_ROLLOFF_25 | DVB_ROLLOFF_35 | DVB_ROLLOFF_15 | DVB_ROLLOFF_10
  | DVB_ROLLOFF_5 | DVB_ROLLOFF_OTHER

text \<open>An existing mux of the network (\<open>dvb_mux_t\<close>, declared by the host), reduced to the
  fields this module reads: \<open>lm_tuning.dmc_fe_freq\<close>, the QPSK symbol rate and
  polarisation, the rolloff, and whether \<open>mm_scan_result\<close> is \<open>MM_SCAN_OK\<close>.\<close>

record dvb_mux =
  dmc_fe_freq :: u32
  dmc_symbol_rate :: u32
  dmc_polarisation :: int
  dmc_fe_rolloff :: dvb_rolloff
  mm_scan_ok :: bool

definition blindscan_mux_half_bandwidth :: "dvb_mux \<Rightarrow> u32" where
  "blindscan_mux_half_bandwidth dm =
     (let sr = dmc_symbol_rate dm;
          rolloff_percent =
            (case dmc_fe_rolloff dm of
               DVB_ROLLOFF_20 \<Rightarrow> 20 | DVB_ROLLOFF_25 \<Rightarrow> 25 | DVB_ROLLOFF_35 \<Rightarrow> 35
             | DVB_ROLLOFF_15 \<Rightarrow> 15 | DVB_ROLLOFF_10 \<Rightarrow> 10 | DVB_ROLLOFF_5 \<Rightarrow> 5
             | DVB_ROLLOFF_OTHER \<Rightarrow> 35)
      in (sr div 1000) * (100 + rolloff_percent) div 200)"

fun blindscan_peak_find_overlapping_mux :: "blindscan_peak \<Rightarrow> dvb_mux list \<Rightarrow> dvb_mux option" where
  "blindscan_peak_find_overlapping_mux peak [] = None"
| "blindscan_peak_find_overlapping_mux peak (dm # rest) =
     (if dmc_polarisation dm \<noteq> bp_polarisation peak then
        blindscan_peak_find_overlapping_mux peak rest
      else
        (let mux_freq = dmc_fe_freq dm;
             half_bw = blindscan_mux_half_bandwidth dm;
             mux_low = mux_freq - half_bw;
             mux_high = mux_freq + half_bw
         in if bp_frequency peak \<ge> mux_low \<and> bp_frequency peak \<le> mux_high then Some dm
            else blindscan_peak_find_overlapping_mux peak rest))"

text \<open>Every assignment to \<open>bs_progress\<close> is recorded with the place it comes from: the
  slot start, a Unicable slice, or the final assignment on completion.\<close>

datatype progress_update = SlotStart | SliceStep | Final

text \<open>\<open>blindscan_session_t\<close>: the scan parameters, state and results the worker touches.
  \<open>progress_log\<close> and \<open>stop_reads\<close> are bookkeeping of the model: the successive values
  written to \<open>bs_progress\<close>, and how often \<open>bs_should_stop\<close> has been read.\<close>

record blindscan_session =
  bs_start_freq :: u32
  bs_end_freq :: u32
  bs_polarisation :: int
  bs_peak_detect :: int
  bs_state :: blindscan_state
  bs_progress :: int
  bs_spectrum_h_low :: "spectrum option"
  bs_spectrum_h_high :: "spectrum option"
  bs_spectrum_v_low :: "spectrum option"
  bs_spectrum_v_high :: "spectrum option"
  bs_peaks :: "blindscan_peak list"
  bs_peak_count :: int
  bs_thread_running :: bool
  progress_log :: "(progress_update \<times> int) list"
  stop_reads :: nat



subsection \<open>\<open>linuxdvb_blindscan_start\<close>\<close>

text \<open>The session as \<open>linuxdvb_blindscan_start\<close> leaves it when the worker thread begins
  (\<open>calloc\<close> zeroes what is not set).  \<open>peak_detect\<close> is the option of that name, if given.\<close>

definition linuxdvb_blindscan_start :: "u32 \<Rightarrow> u32 \<Rightarrow> char \<Rightarrow> int option \<Rightarrow> blindscan_session" where
  "linuxdvb_blindscan_start start_freq end_freq pol peak_detect =
     \<lparr>bs_start_freq = start_freq,
      bs_end_freq = end_freq,
      bs_polarisation =
        (if pol = CHR ''H'' \<or> pol = CHR ''h'' then DVB_POLARISATION_HORIZONTAL
         else if pol = CHR ''V'' \<or> pol = CHR ''v'' then DVB_POLARISATION_VERTICAL
         else - 1),
      bs_peak_detect = (case peak_detect of None \<Rightarrow> 0 | Some d \<Rightarrow> d),
      bs_state = BLINDSCAN_STATE_ACQUIRING,
      bs_progress = 0,
      bs_spectrum_h_low = None,
      bs_spectrum_h_high = None,
      bs_spectrum_v_low = None,
      bs_spectrum_v_high = None,
      bs_peaks = [],
      bs_peak_count = 0,
      bs_thread_running = True,
      progress_log = [],
      stop_reads = 0\<rparr>"

subsection \<open>Pieces of \<open>blindscan_worker\<close>\<close>






text \<open>The new \<open>blindscan_peak_t\<close> for one candidate, and the insertion loop
  (\<open>LIST_INSERT_HEAD\<close>: the head of the list is the front).\<close>

definition new_peak :: "dvb_mux list \<Rightarrow> bool \<Rightarrow> blindscan_spectral_peak \<Rightarrow> blindscan_peak" where
  "new_peak muxes pol_is_v dp =
     (let peak = \<lparr>bp_frequency = sp_frequency dp,
                  bp_symbol_rate = sp_symbol_rate dp,
                  bp_polarisation =
                    (if pol_is_v then DVB_POLARISATION_VERTICAL else DVB_POLARISATION_HORIZONTAL),
                  bp_level = sp_level dp,
                  bp_snr = sp_snr dp,
                  bp_status = BLINDSCAN_PEAK_PENDING,
                  bp_stream_id = - 1,
                  bp_verified_freq = 0,
                  bp_verified_sr = 0\<rparr>
      in case blindscan_peak_find_overlapping_mux peak muxes of
           None \<Rightarrow> peak
         | Some overlap_mux \<Rightarrow>
             peak\<lparr>bp_status := BLINDSCAN_PEAK_SKIPPED,
                  bp_verified_freq := dmc_fe_freq overlap_mux,
                  bp_verified_sr := dmc_symbol_rate overlap_mux\<rparr>)"

definition add_peak ::
  "dvb_mux list \<Rightarrow> bool \<Rightarrow> blindscan_spectral_peak \<Rightarrow> blindscan_session \<Rightarrow> blindscan_session"
where
  "add_peak muxes pol_is_v dp bs =
     bs\<lparr>bs_peaks := new_peak muxes pol_is_v dp # bs_peaks bs,
        bs_peak_count := bs_peak_count bs + 1\<rparr>"

definition add_peaks ::
  "dvb_mux list \<Rightarrow> bool \<Rightarrow> blindscan_spectral_peak list \<Rightarrow> blindscan_session \<Rightarrow> blindscan_session"
where
  "add_peaks muxes pol_is_v driver_peaks bs = fold (add_peak muxes pol_is_v) driver_peaks bs"












subsection \<open>\<open>blindscan_worker\<close>\<close>



section \<open>The peaks report (\<open>linuxdvb_blindscan_peaks\<close>)\<close>

text \<open>One entry of the reported list.  The tuning fields added for a locked peak are
  left out; \<open>rp_verified\<close> holds \<open>verified_freq\<close> and \<open>verified_sr\<close> when present.\<close>

record peak_report =
  rp_frequency :: u32
  rp_symbol_rate :: u32
  rp_level :: int
  rp_snr :: int
  rp_polarisation :: string
  rp_status :: string
  rp_existing :: bool
  rp_has_failed_mux :: bool
  rp_verified :: "(u32 \<times> u32) option"

text \<open>\<open>abs((int)a - (int)b)\<close> on two \<open>uint32_t\<close> values, as the compiled code computes it:
  the casts reinterpret the 32 bits, and the subtraction and the negation inside \<open>abs\<close>
  wrap around.\<close>

definition abs_int_diff :: "u32 \<Rightarrow> u32 \<Rightarrow> int" where
  "abs_int_diff a b = (let d = a - b in sint (if sint d < 0 then - d else d))"

text \<open>The test of the inner mux loop; \<open>(int)\<close> of a \<open>uint32_t\<close> is \<open>sint\<close>.\<close>

definition report_mux_matches :: "blindscan_peak \<Rightarrow> dvb_mux \<Rightarrow> bool" where
  "report_mux_matches peak dm =
     (let mux_sr = dmc_symbol_rate dm;
          max_offset = (if mux_sr > 0 then mux_sr div 2000 else 3000);
          max_offset = (if max_offset < 1000 then 1000 else max_offset)
      in abs_int_diff (dmc_fe_freq dm) (bp_frequency peak) < sint max_offset
         \<and> dmc_polarisation dm = bp_polarisation peak)"

definition report_peak :: "dvb_mux list \<Rightarrow> blindscan_peak \<Rightarrow> peak_report \<times> blindscan_peak" where
  "report_peak muxes peak =
     (let pending = (bp_status peak = BLINDSCAN_PEAK_PENDING);
          matching = filter (report_mux_matches peak) muxes;
          found_ok = (pending \<and> list_ex mm_scan_ok matching);
          found_fail = (pending \<and> list_ex (\<lambda>dm. \<not> mm_scan_ok dm) matching);
          existing = found_ok;
          existing_failed = (\<not> found_ok \<and> found_fail);
          peak = (if found_ok then peak\<lparr>bp_status := BLINDSCAN_PEAK_SKIPPED\<rparr> else peak);
          status_str =
            (case bp_status peak of
               BLINDSCAN_PEAK_PENDING \<Rightarrow> if existing_failed then ''retry'' else ''pending''
             | BLINDSCAN_PEAK_SCANNING \<Rightarrow> ''scanning''
             | BLINDSCAN_PEAK_LOCKED \<Rightarrow> ''locked''
             | BLINDSCAN_PEAK_FAILED \<Rightarrow> ''failed''
             | BLINDSCAN_PEAK_SKIPPED \<Rightarrow> ''existing'')
      in (\<lparr>rp_frequency = bp_frequency peak,
           rp_symbol_rate = bp_symbol_rate peak,
           rp_level = bp_level peak,
           rp_snr = bp_snr peak,
           rp_polarisation =
             (if bp_polarisation peak = DVB_POLARISATION_VERTICAL then ''V'' else ''H''),
           rp_status = status_str,
           rp_existing = existing,
           rp_has_failed_mux = existing_failed,
           rp_verified =
             (if bp_verified_freq peak > 0
              then Some (bp_verified_freq peak, bp_verified_sr peak) else None)\<rparr>,
          peak))"

text \<open>\<open>LIST_FOREACH\<close> walks the list from its head.  The result is the \<open>peaks\<close> list, the
  \<open>count\<close> field, and the session with the statuses the report has changed.\<close>

definition linuxdvb_blindscan_peaks ::
  "dvb_mux list \<Rightarrow> blindscan_session \<Rightarrow> peak_report list \<times> int \<times> blindscan_session"
where
  "linuxdvb_blindscan_peaks muxes bs =
     (let rs = map (report_peak muxes) (bs_peaks bs)
      in (map fst rs, bs_peak_count bs, bs\<lparr>bs_peaks := map snd rs\<rparr>))"

section \<open>Prescan (\<open>linuxdvb_blindscan_prescan\<close>)\<close>

text \<open>The lookup of the estimated symbol rate among the session's peaks.\<close>

fun prescan_est_symbol_rate :: "blindscan_peak list \<Rightarrow> u32 \<Rightarrow> char \<Rightarrow> u32" where
  "prescan_est_symbol_rate [] frequency pol = 22000000"
| "prescan_est_symbol_rate (peak # rest) frequency pol =
     (if abs_int_diff (bp_frequency peak) frequency < 2000
         \<and> (if pol = CHR ''H'' \<or> pol = CHR ''h''
             then bp_polarisation peak = DVB_POLARISATION_HORIZONTAL
             else bp_polarisation peak = DVB_POLARISATION_VERTICAL)
      then (if bp_symbol_rate peak > 0 then bp_symbol_rate peak else 22000000)
      else prescan_est_symbol_rate rest frequency pol)"

definition prescan_search_range :: "u32 \<Rightarrow> u32" where
  "prescan_search_range est_symbol_rate =
     (if est_symbol_rate > 8000000 then est_symbol_rate div 2 else 8000000)"

text \<open>The properties of the tune transaction, in the order they are put into \<open>props\<close>.\<close>

datatype dtv_property =
  DTV_ALGORITHM_BLIND | DTV_DELIVERY_SYSTEM_AUTO | DTV_SEARCH_RANGE u32 | DTV_SYMBOL_RATE u32
  | DTV_FREQUENCY u32 | DTV_STREAM_ID u32 | DTV_PLS_SEARCH_LIST "u32 list" | DTV_TUNE

definition pls_codes :: "u32 list" where
  "pls_codes =
     [push_bit 26 0 OR push_bit 8 0,
      push_bit 26 0 OR push_bit 8 1,
      push_bit 26 0 OR push_bit 8 8,
      push_bit 26 0 OR push_bit 8 16416,
      push_bit 26 1 OR push_bit 8 0,
      push_bit 26 1 OR push_bit 8 8192]"

definition prescan_tune_props :: "u32 \<Rightarrow> u32 \<Rightarrow> dtv_property list" where
  "prescan_tune_props est_symbol_rate driver_freq =
     [DTV_ALGORITHM_BLIND, DTV_DELIVERY_SYSTEM_AUTO,
      DTV_SEARCH_RANGE (prescan_search_range est_symbol_rate)]
     @ (if est_symbol_rate > 0 then [DTV_SYMBOL_RATE est_symbol_rate] else [])
     @ [DTV_FREQUENCY driver_freq, DTV_STREAM_ID (- 1), DTV_PLS_SEARCH_LIST pls_codes, DTV_TUNE]"

text \<open>Read-back after a lock.  \<open>raw_stream_id\<close> is \<open>get_props[5].u.data\<close>, read into an
  \<open>int32_t\<close>; \<open>matype\<close> is \<open>get_props[8].u.data\<close> when the headers define \<open>DTV_MATYPE\<close>
  and \<open>None\<close> when they do not (the \<open>#else\<close> branch).\<close>

definition decode_stream_id :: "u32 \<Rightarrow> int" where
  "decode_stream_id raw_stream_id =
     (let stream_id = sint raw_stream_id
      in if stream_id = 511 then - 1
         else if stream_id \<ge> 256 \<and> stream_id < 511 then stream_id - 256
         else stream_id)"

record prescan_readback =
  pr_stream_id :: int
  pr_pls_mode :: int
  pr_pls_code :: int
  pr_is_gse :: bool

definition read_back :: "u32 \<Rightarrow> u32 option \<Rightarrow> prescan_readback" where
  "read_back raw_stream_id matype_opt =
     (let stream_id = decode_stream_id raw_stream_id
      in case matype_opt of
           Some matype \<Rightarrow>
             (let pls_mode = uint (drop_bit 26 matype AND 0x3);
                  pls_code = uint (drop_bit 8 matype AND 0x3FFFF);
                  matype_byte = (ucast (matype AND 0xFF) :: 8 word);
                  ts_gs = uint (drop_bit 6 matype_byte AND 0x3)
              in \<lparr>pr_stream_id = stream_id, pr_pls_mode = pls_mode, pr_pls_code = pls_code,
                  pr_is_gse = (stream_id \<ge> 0 \<and> matype \<noteq> 0 \<and> ts_gs \<noteq> 3)\<rparr>)
         | None \<Rightarrow>
             \<lparr>pr_stream_id = stream_id, pr_pls_mode = 0, pr_pls_code = 0, pr_is_gse = False\<rparr>)"





section \<open>Concrete inputs\<close>

text \<open>200 samples, 100 kHz apart, at -70 dB with a 1.4 MHz wide carrier at -40 dB
  (samples 93 to 106).\<close>

definition sd_carrier :: spectrum where
  "sd_carrier =
     map (\<lambda>i. \<lparr>pt_frequency = 10700000 + 100 * of_nat i,
               pt_level = (if 93 \<le> i \<and> i \<le> 106 then - 4000 else - 7000)\<rparr>) [0..<200]"

text \<open>100 samples, 1 MHz apart, flat at 0 with two 20 dB spikes at samples 30 and 70.\<close>

definition sd_two :: spectrum where
  "sd_two =
     map (\<lambda>i. \<lparr>pt_frequency = 10700000 + 1000 * of_nat i,
               pt_level = (if i = 30 \<or> i = 70 then 2000 else 0)\<rparr>) [0..<100]"

text \<open>As \<open>sd_two\<close>, with a shoulder at 17 dB right of sample 30 that ends in a second
  local maximum of 18 dB at sample 45.\<close>

definition sd_shoulder :: spectrum where
  "sd_shoulder =
     map (\<lambda>i. \<lparr>pt_frequency = 10700000 + 1000 * of_nat i,
               pt_level = (if i = 30 \<or> i = 70 then 2000 else if i = 45 then 1800
                           else if 30 < i \<and> i < 45 then 1700 else 0)\<rparr>) [0..<100]"

text \<open>100 samples, flat at 0, with the only spike (50 dB) at sample 5.\<close>

definition sd_edge :: spectrum where
  "sd_edge =
     map (\<lambda>i. \<lparr>pt_frequency = 10700000 + 1000 * of_nat i,
               pt_level = (if i = 5 then 5000 else 0)\<rparr>) [0..<100]"

text \<open>Three driver candidates: two 3 MHz apart, then a stronger one between them.\<close>

definition cand_a :: blindscan_spectral_peak where
  "cand_a = \<lparr>sp_frequency = 11010000, sp_symbol_rate = 27500000, sp_snr = 1200, sp_level = - 4000\<rparr>"

definition cand_b :: blindscan_spectral_peak where
  "cand_b = \<lparr>sp_frequency = 11013000, sp_symbol_rate = 27500000, sp_snr = 1200, sp_level = - 4000\<rparr>"

definition cand_c :: blindscan_spectral_peak where
  "cand_c = \<lparr>sp_frequency = 11011500, sp_symbol_rate = 27500000, sp_snr = 1500, sp_level = - 3000\<rparr>"





text \<open>A pending horizontal peak at 11 012 MHz with an estimate of 10 Msym/s.\<close>

definition peak_10M :: blindscan_peak where
  "peak_10M =
     \<lparr>bp_frequency = 11012000, bp_symbol_rate = 10000000,
      bp_polarisation = DVB_POLARISATION_HORIZONTAL, bp_level = - 4000, bp_snr = 1200,
      bp_status = BLINDSCAN_PEAK_PENDING, bp_stream_id = - 1,
      bp_verified_freq = 0, bp_verified_sr = 0\<rparr>"

section \<open>Properties of the peak detector\<close>

subsection \<open>The sweep\<close>

lemma find_candidates_bounds:
  "c \<in> set (find_candidates sd t i k) \<Longrightarrow> i \<le> idx c \<and> idx c < length sd - half_win"
proof (induction sd t i k rule: find_candidates.induct)
  case (1 sd t i k)
  show ?case
  proof (cases "i < length sd - half_win \<and> k < 512")
    case False
    then have "find_candidates sd t i k = []"
      by (subst find_candidates.simps) auto
    with "1.prems" show ?thesis by simp
  next
    case run: True
    show ?thesis
    proof (cases "pt_level (sd ! i) < t")
      case True
      with run "1.prems" have "c \<in> set (find_candidates sd t (i + 1) k)"
        by (simp add: find_candidates.simps [of sd t i k])
      with "1.IH"(1) run True show ?thesis by fastforce
    next
      case above: False
      show ?thesis
      proof (cases "is_local_max sd i")
        case True
        with run above "1.prems"
        have "c = \<lparr>idx = i, c_level = pt_level (sd ! i)\<rparr>
              \<or> c \<in> set (find_candidates sd t (i + half_win + 1) (k + 1))"
          by (simp add: find_candidates.simps [of sd t i k])
        then show ?thesis
        proof
          assume "c = \<lparr>idx = i, c_level = pt_level (sd ! i)\<rparr>"
          with run show ?thesis by simp
        next
          assume "c \<in> set (find_candidates sd t (i + half_win + 1) (k + 1))"
          with "1.IH"(2) run above True show ?thesis by fastforce
        qed
      next
        case False
        with run above "1.prems" have "c \<in> set (find_candidates sd t (i + 1) k)"
          by (simp add: find_candidates.simps [of sd t i k])
        with "1.IH"(3) run above False show ?thesis by fastforce
      qed
    qed
  qed
qed

lemma find_candidates_sorted:
  "sorted_wrt (\<lambda>a b. idx a < idx b) (find_candidates sd t i k)"
proof (induction sd t i k rule: find_candidates.induct)
  case (1 sd t i k)
  show ?case
  proof (cases "i < length sd - half_win \<and> k < 512")
    case False
    then have "find_candidates sd t i k = []"
      by (subst find_candidates.simps) auto
    then show ?thesis by simp
  next
    case run: True
    show ?thesis
    proof (cases "pt_level (sd ! i) < t")
      case True
      with run "1.IH"(1) show ?thesis by (simp add: find_candidates.simps [of sd t i k])
    next
      case above: False
      show ?thesis
      proof (cases "is_local_max sd i")
        case True
        have "\<forall>c \<in> set (find_candidates sd t (i + half_win + 1) (k + 1)). i < idx c"
          using find_candidates_bounds [of _ sd t "i + half_win + 1" "k + 1"] by fastforce
        with run above True "1.IH"(2) show ?thesis
          by (simp add: find_candidates.simps [of sd t i k])
      next
        case False
        with run above "1.IH"(3) show ?thesis by (simp add: find_candidates.simps [of sd t i k])
      qed
    qed
  qed
qed

lemma merge_from_subset: "set (merge_from sd prev cs) \<subseteq> insert prev (set cs)"
  by (induction cs arbitrary: prev) auto

lemma valley_merge_subset: "set (valley_merge sd cs) \<subseteq> set cs"
proof (cases cs)
  case Nil
  then show ?thesis by (simp add: valley_merge_def)
next
  case (Cons c rest)
  with merge_from_subset [of sd c rest] show ?thesis by (simp add: valley_merge_def)
qed

subsection \<open>The valley test\<close>

lemma fold_min_le_iff:
  "fold (\<lambda>j v. if f j < v then f j else v) js (v0::int) \<le> b
     \<longleftrightarrow> v0 \<le> b \<or> (\<exists>j \<in> set js. f j \<le> b)"
  by (induction js arbitrary: v0) auto

text \<open>The loop's test \<open>valley_depth >= min_valley_depth\<close> holds exactly when some sample
  strictly between the two candidates lies at least 4 dB below the weaker of them.\<close>

lemma valley_depth_iff:
  "valley_depth sd p q \<ge> min_valley_depth \<longleftrightarrow>
     (\<exists>j. idx p < j \<and> j < idx q \<and> pt_level (sd ! j) \<le> min (c_level p) (c_level q) - 400)"
proof -
  have w: "weaker_peak p q = min (c_level p) (c_level q)"
    by (simp add: weaker_peak_def min_def)
  have "valley_depth sd p q \<ge> min_valley_depth \<longleftrightarrow>
        valley_level sd p q \<le> min (c_level p) (c_level q) - 400"
    unfolding valley_depth_def min_valley_depth_def w by linarith
  also have "\<dots> \<longleftrightarrow> (\<exists>j \<in> set [idx p + 1 ..< idx q].
                pt_level (sd ! j) \<le> min (c_level p) (c_level q) - 400)"
    unfolding valley_level_def w
    by (subst fold_min_le_iff [where f = "\<lambda>j. pt_level (sd ! j)"]) simp
  also have "\<dots> \<longleftrightarrow> (\<exists>j. idx p < j \<and> j < idx q
                \<and> pt_level (sd ! j) \<le> min (c_level p) (c_level q) - 400)"
    by (auto simp: Suc_le_eq)
  finally show ?thesis .
qed

lemma separated_mono:
  assumes "separated sd p q" "idx q \<le> idx q'" "c_level q \<le> c_level q'"
  shows "separated sd p q'"
proof -
  from assms(1) obtain j where j: "idx p < j" "j < idx q"
      "pt_level (sd ! j) \<le> min (c_level p) (c_level q) - 400"
    unfolding separated_def valley_depth_iff by blast
  from j assms(2,3) have "idx p < j \<and> j < idx q'
      \<and> pt_level (sd ! j) \<le> min (c_level p) (c_level q') - 400" by auto
  then show ?thesis unfolding separated_def valley_depth_iff by blast
qed

subsection \<open>The merge loop\<close>

text \<open>On candidates in index order the loop returns a list that starts no further left
  and no lower than \<open>prev\<close>, is again in index order, and whose neighbours are separated.\<close>

lemma merge_from_inv:
  "sorted_wrt (\<lambda>a b. idx a < idx b) (prev # cs) \<Longrightarrow>
   \<exists>h t. merge_from sd prev cs = h # t \<and> idx prev \<le> idx h \<and> c_level prev \<le> c_level h
      \<and> successively (separated sd) (h # t) \<and> sorted_wrt (\<lambda>a b. idx a < idx b) (h # t)"
proof (induction cs arbitrary: prev)
  case Nil
  then show ?case by simp
next
  case (Cons cur rest)
  from Cons.prems have s1: "sorted_wrt (\<lambda>a b. idx a < idx b) (cur # rest)"
    and s2: "sorted_wrt (\<lambda>a b. idx a < idx b) (prev # rest)"
    and lt: "idx prev < idx cur" by auto
  show ?case
  proof (cases "valley_depth sd prev cur \<ge> min_valley_depth")
    case True
    from Cons.IH [OF s1] obtain h t where ht: "merge_from sd cur rest = h # t"
      "idx cur \<le> idx h" "c_level cur \<le> c_level h" "successively (separated sd) (h # t)"
      "sorted_wrt (\<lambda>a b. idx a < idx b) (h # t)" by blast
    from True have "separated sd prev cur" by (simp add: separated_def)
    then have sep: "separated sd prev h" using ht(2,3) by (rule separated_mono)
    have "\<forall>x \<in> set (h # t). idx prev < idx x"
      using ht(2,5) lt by auto
    with True ht sep show ?thesis by simp
  next
    case shallow: False
    show ?thesis
    proof (cases "c_level cur > c_level prev")
      case True
      from Cons.IH [OF s1] obtain h t where ht: "merge_from sd cur rest = h # t"
        "idx cur \<le> idx h" "c_level cur \<le> c_level h" "successively (separated sd) (h # t)"
        "sorted_wrt (\<lambda>a b. idx a < idx b) (h # t)" by blast
      with shallow True lt show ?thesis by simp
    next
      case False
      from Cons.IH [OF s2] obtain h t where ht: "merge_from sd prev rest = h # t"
        "idx prev \<le> idx h" "c_level prev \<le> c_level h" "successively (separated sd) (h # t)"
        "sorted_wrt (\<lambda>a b. idx a < idx b) (h # t)" by blast
      with shallow False show ?thesis by simp
    qed
  qed
qed

lemma merge_from_fixed:
  "successively (separated sd) (p # ps) \<Longrightarrow> merge_from sd p ps = p # ps"
  by (induction ps arbitrary: p) (auto simp: separated_def)

lemma valley_merge_separated:
  assumes "sorted_wrt (\<lambda>a b. idx a < idx b) cs"
  shows "successively (separated sd) (valley_merge sd cs)"
proof (cases cs)
  case Nil
  then show ?thesis by (simp add: valley_merge_def)
next
  case (Cons c rest)
  with merge_from_inv [of c rest sd] assms show ?thesis
    by (auto simp: valley_merge_def)
qed

lemma valley_merge_sorted:
  assumes "sorted_wrt (\<lambda>a b. idx a < idx b) cs"
  shows "sorted_wrt (\<lambda>a b. idx a < idx b) (valley_merge sd cs)"
proof (cases cs)
  case Nil
  then show ?thesis by (simp add: valley_merge_def)
next
  case (Cons c rest)
  with merge_from_inv [of c rest sd] assms show ?thesis
    by (auto simp: valley_merge_def)
qed

lemma valley_merge_fixed:
  "successively (separated sd) ms \<Longrightarrow> valley_merge sd ms = ms"
  by (cases ms) (simp_all add: valley_merge_def merge_from_fixed)

lemma separated_any_two:
  assumes suc: "successively (separated sd) ms"
    and srt: "sorted_wrt (\<lambda>a b. idx a < idx b) ms"
    and kl: "k < l" "l < length ms"
  shows "\<exists>j. idx (ms ! k) < j \<and> j < idx (ms ! l)
            \<and> pt_level (sd ! j) \<le> min (c_level (ms ! k)) (c_level (ms ! l)) - 400"
proof (cases "c_level (ms ! k) \<le> c_level (ms ! l)")
  case True
  from kl have "Suc k < length ms" by simp
  with suc have "separated sd (ms ! k) (ms ! Suc k)" by (rule successively_nth)
  then obtain j where j: "idx (ms ! k) < j" "j < idx (ms ! Suc k)"
      "pt_level (sd ! j) \<le> min (c_level (ms ! k)) (c_level (ms ! Suc k)) - 400"
    unfolding separated_def valley_depth_iff by blast
  have "idx (ms ! Suc k) \<le> idx (ms ! l)"
  proof (cases "Suc k = l")
    case True
    then show ?thesis by simp
  next
    case False
    with kl have "Suc k < l" by simp
    with srt have "idx (ms ! Suc k) < idx (ms ! l)" using kl(2) by (rule sorted_wrt_nth_less)
    then show ?thesis by simp
  qed
  with j True show ?thesis by (intro exI [of _ j]) auto
next
  case False
  from kl obtain l' where l': "l = Suc l'" by (cases l) auto
  with kl suc have "separated sd (ms ! l') (ms ! l)" by (simp add: successively_nth)
  then obtain j where j: "idx (ms ! l') < j" "j < idx (ms ! l)"
      "pt_level (sd ! j) \<le> min (c_level (ms ! l')) (c_level (ms ! l)) - 400"
    unfolding separated_def valley_depth_iff by blast
  have "idx (ms ! k) \<le> idx (ms ! l')"
  proof (cases "k = l'")
    case True
    then show ?thesis by simp
  next
    case False
    with kl l' have "k < l'" "l' < length ms" by simp_all
    from srt this have "idx (ms ! k) < idx (ms ! l')" by (rule sorted_wrt_nth_less)
    then show ?thesis by simp
  qed
  with j False show ?thesis by (intro exI [of _ j]) auto
qed

lemma detect_candidates_sorted:
  "sorted_wrt (\<lambda>a b. idx a < idx b) (detect_candidates sd threshold_db)"
  by (simp add: detect_candidates_def find_candidates_sorted)

subsection \<open>Evaluations on the concrete buffers\<close>

lemma detect_merged_sd_two:
  "detect_merged sd_two 1000 = [\<lparr>idx = 30, c_level = 2000\<rparr>, \<lparr>idx = 70, c_level = 2000\<rparr>]"
  by code_simp

lemma sd_two_valley: "pt_level (sd_two ! 50) = 0"
  by code_simp

lemma detect_peaks_sd_two:
  "map sp_level (blindscan_detect_peaks sd_two 512 1000) = [2000, 2000]"
  by code_simp

text \<open>The peaks the detector returns are the kept candidates, in the same order and with
  the same levels.\<close>

lemma detect_peaks_levels:
  "100 \<le> length sd \<Longrightarrow>
   map sp_level (blindscan_detect_peaks sd max_peaks threshold_db)
   = map c_level (take (nat max_peaks) (detect_merged sd threshold_db))"
  by (simp add: blindscan_detect_peaks_def output_peak_def Let_def comp_def)

lemma detect_candidates_sd_shoulder:
  "detect_candidates sd_shoulder 1000 =
     [\<lparr>idx = 30, c_level = 2000\<rparr>, \<lparr>idx = 45, c_level = 1800\<rparr>, \<lparr>idx = 70, c_level = 2000\<rparr>]"
  by code_simp

lemma valley_merge_sd_shoulder:
  "valley_merge sd_shoulder
     [\<lparr>idx = 30, c_level = 2000\<rparr>, \<lparr>idx = 45, c_level = 1800\<rparr>, \<lparr>idx = 70, c_level = 2000\<rparr>]
   = [\<lparr>idx = 30, c_level = 2000\<rparr>, \<lparr>idx = 70, c_level = 2000\<rparr>]"
  by code_simp

lemma sd_edge_levels:
  "length sd_edge = 100 \<and> pt_level (sd_edge ! 5) = 5000 \<and> min_level_of sd_edge = 0"
  by code_simp

section \<open>Claims about the peak detector\<close>

text \<open>
  C1.  Claimed: for a buffer of at least 100 samples every detected peak has a symbol-rate
  estimate between 2 000 000 and 45 000 000, the -6 dB bandwidth in kHz times 800 clamped
  to that range.  The lower clamp tests against 1 000 000 but assigns 2 000 000, so an
  estimate from 1 000 000 up to 1 999 999 is passed on unchanged.  On \<open>sd_carrier\<close>
  (200 samples, a 1.4 MHz wide carrier, -6 dB bandwidth 1500 kHz) the detector returns one
  peak whose symbol rate is 1 200 000.
\<close>

theorem detect_peaks_symbol_rate_below_floor:
  "length sd_carrier = 200
   \<and> blindscan_detect_peaks sd_carrier 512 1000 =
       [\<lparr>sp_frequency = 10709950, sp_symbol_rate = 1200000, sp_snr = 3000, sp_level = - 4000\<rparr>]"
  by code_simp

text \<open>What the two tests of \<open>symbol_rate_of_bandwidth\<close> do guarantee.\<close>

lemma symbol_rate_of_bandwidth_range:
  "1000000 \<le> symbol_rate_of_bandwidth b \<and> symbol_rate_of_bandwidth b \<le> 45000000"
  by (simp add: symbol_rate_of_bandwidth_def Let_def not_less)

lemma detect_peaks_symbol_rate_range:
  "p \<in> set (blindscan_detect_peaks sd max_peaks threshold_db) \<Longrightarrow>
   1000000 \<le> sp_symbol_rate p \<and> sp_symbol_rate p \<le> 45000000"
  using symbol_rate_of_bandwidth_range
  by (auto simp: blindscan_detect_peaks_def output_peak_def Let_def split: if_splits)

text \<open>
  C4.  Claimed: between any two kept peaks every sample has a level of at least the
  smaller peak level minus 400.  The merge loop keeps two candidates apart only when the
  valley between them is at least 400 below the weaker one, so the opposite holds.  On
  \<open>sd_two\<close> the peaks at samples 30 and 70 (level 2000) are both kept, and sample 50
  between them has level 0, which is below 2000 - 400.
\<close>

theorem kept_peaks_deep_valley_example:
  "detect_merged sd_two 1000 = [\<lparr>idx = 30, c_level = 2000\<rparr>, \<lparr>idx = 70, c_level = 2000\<rparr>]
   \<and> map sp_level (blindscan_detect_peaks sd_two 512 1000) = [2000, 2000]
   \<and> (30::nat) < 50 \<and> (50::nat) < 70
   \<and> pt_level (sd_two ! 50) < min (2000::int) 2000 - 400"
  by (simp add: detect_merged_sd_two sd_two_valley detect_peaks_sd_two)

text \<open>
  C4, as the code has it.  For every spectrum buffer and any two kept peaks of the
  detector (positions \<open>k < l\<close> in the merged list), some sample strictly between them has
  a level of at most the smaller of the two peak levels minus 400.
\<close>

theorem kept_peaks_have_valley_between:
  assumes "k < l" and "l < length (detect_merged sd threshold_db)"
  shows "\<exists>j. idx (detect_merged sd threshold_db ! k) < j
            \<and> j < idx (detect_merged sd threshold_db ! l)
            \<and> pt_level (sd ! j)
                \<le> min (c_level (detect_merged sd threshold_db ! k))
                       (c_level (detect_merged sd threshold_db ! l)) - 400"
proof -
  have srt: "sorted_wrt (\<lambda>a b. idx a < idx b) (detect_candidates sd threshold_db)"
    by (rule detect_candidates_sorted)
  have "successively (separated sd) (detect_merged sd threshold_db)"
    unfolding detect_merged_def using srt by (rule valley_merge_separated)
  moreover have "sorted_wrt (\<lambda>a b. idx a < idx b) (detect_merged sd threshold_db)"
    unfolding detect_merged_def using srt by (rule valley_merge_sorted)
  ultimately show ?thesis using assms by (rule separated_any_two)
qed

theorem kept_peaks_have_valley_between_witness:
  "(0::nat) < 1 \<and> 1 < length (detect_merged sd_two 1000)
   \<and> (\<exists>j. idx (detect_merged sd_two 1000 ! 0) < j
          \<and> j < idx (detect_merged sd_two 1000 ! 1)
          \<and> pt_level (sd_two ! j)
              \<le> min (c_level (detect_merged sd_two 1000 ! 0))
                     (c_level (detect_merged sd_two 1000 ! 1)) - 400)"
proof -
  have h: "(0::nat) < 1" "1 < length (detect_merged sd_two 1000)"
    by (simp_all add: detect_merged_sd_two)
  from kept_peaks_have_valley_between [OF h] h show ?thesis by blast
qed

text \<open>
  C9.  The valley-based merging step is idempotent: for every spectrum buffer and every
  candidate list in index order (left to right, as the sweep builds it), merging the
  merged list again returns it unchanged.
\<close>

theorem valley_merge_idempotent:
  assumes "sorted_wrt (\<lambda>a b. idx a < idx b) candidates"
  shows "valley_merge sd (valley_merge sd candidates) = valley_merge sd candidates"
  using valley_merge_separated [OF assms] by (rule valley_merge_fixed)

theorem valley_merge_idempotent_witness:
  "sorted_wrt (\<lambda>a b. idx a < idx b)
     [\<lparr>idx = 30, c_level = 2000\<rparr>, \<lparr>idx = 45, c_level = 1800\<rparr>, \<lparr>idx = 70, c_level = 2000\<rparr>]
   \<and> valley_merge sd_shoulder
        [\<lparr>idx = 30, c_level = 2000\<rparr>, \<lparr>idx = 45, c_level = 1800\<rparr>, \<lparr>idx = 70, c_level = 2000\<rparr>]
      = [\<lparr>idx = 30, c_level = 2000\<rparr>, \<lparr>idx = 70, c_level = 2000\<rparr>]
   \<and> valley_merge sd_shoulder
        (valley_merge sd_shoulder
           [\<lparr>idx = 30, c_level = 2000\<rparr>, \<lparr>idx = 45, c_level = 1800\<rparr>,
            \<lparr>idx = 70, c_level = 2000\<rparr>])
      = valley_merge sd_shoulder
          [\<lparr>idx = 30, c_level = 2000\<rparr>, \<lparr>idx = 45, c_level = 1800\<rparr>, \<lparr>idx = 70, c_level = 2000\<rparr>]"
proof -
  have h: "sorted_wrt (\<lambda>a b. idx a < idx b)
     [\<lparr>idx = 30, c_level = 2000\<rparr>, \<lparr>idx = 45, c_level = 1800\<rparr>, \<lparr>idx = 70, c_level = 2000\<rparr>]"
    by simp
  from valley_merge_idempotent [OF h, of sd_shoulder] h valley_merge_sd_shoulder
  show ?thesis by simp
qed

text \<open>The candidate lists the detector itself builds are in index order, so for them the
  merge step is idempotent without any side condition.\<close>

lemma detect_merged_idempotent:
  "valley_merge sd (detect_merged sd threshold_db) = detect_merged sd threshold_db"
  unfolding detect_merged_def
  using valley_merge_separated [OF detect_candidates_sorted] by (rule valley_merge_fixed)

text \<open>
  C10.  The local-maximum sweep only looks at indices \<open>10 \<le> i \<le> n - 11\<close>: for every
  spectrum buffer, a sample among the first 10 or the last 10 is never a candidate of the
  sweep, and so never a kept peak, whatever its level.
\<close>

theorem sweep_skips_border_samples:
  assumes "i < 10 \<or> length sd - 10 \<le> i"
  shows "i \<notin> idx ` set (detect_candidates sd threshold_db)
         \<and> i \<notin> idx ` set (detect_merged sd threshold_db)"
proof -
  have b: "10 \<le> idx c \<and> idx c < length sd - 10"
    if "c \<in> set (detect_candidates sd threshold_db)" for c
    using find_candidates_bounds [of c sd "min_level_of sd + threshold_db" half_win 0] that
    by (simp add: detect_candidates_def half_win_def window_def)
  have "set (detect_merged sd threshold_db) \<subseteq> set (detect_candidates sd threshold_db)"
    by (simp add: detect_merged_def valley_merge_subset)
  with b assms show ?thesis by fastforce
qed

theorem sweep_skips_border_samples_witness:
  "((5::nat) < 10 \<or> length sd_edge - 10 \<le> 5)
   \<and> min_level_of sd_edge + 1000 \<le> pt_level (sd_edge ! 5)
   \<and> 5 \<notin> idx ` set (detect_candidates sd_edge 1000)
   \<and> 5 \<notin> idx ` set (detect_merged sd_edge 1000)"
proof -
  have h: "(5::nat) < 10 \<or> length sd_edge - 10 \<le> 5" by simp
  from sweep_skips_border_samples [OF h, of 1000] sd_edge_levels show ?thesis by simp
qed

section \<open>Claims about deduplication, prescan and the peaks report\<close>

subsection \<open>Prescan read-back\<close>

lemma int_top2_is_3: "((y::int) mod 4 = 3) = (odd (y div 2) \<and> odd y)"
  by presburger

lemma pls_mode_bits: "uint (drop_bit 26 (m::u32) AND 0x3) = (uint m div 2 ^ 26) mod 4"
proof -
  have "(0x3::u32) = mask 2" by (simp add: mask_eq_exp_minus_1)
  then have "uint (drop_bit 26 m AND 0x3) = uint (take_bit 2 (drop_bit 26 m))"
    by (simp add: take_bit_eq_mask)
  also have "\<dots> = (uint m div 2 ^ 26) mod 4"
    by (simp add: unsigned_take_bit_eq unsigned_drop_bit_eq take_bit_eq_mod drop_bit_eq_div
        uint_div_distrib uint_mod_distrib)
  finally show ?thesis .
qed

lemma pls_code_bits: "uint (drop_bit 8 (m::u32) AND 0x3FFFF) = (uint m div 2 ^ 8) mod 2 ^ 18"
proof -
  have "(0x3FFFF::u32) = mask 18" by (simp add: mask_eq_exp_minus_1)
  then have "uint (drop_bit 8 m AND 0x3FFFF) = uint (take_bit 18 (drop_bit 8 m))"
    by (simp add: take_bit_eq_mask)
  also have "\<dots> = (uint m div 2 ^ 8) mod 2 ^ 18"
    by (simp add: unsigned_take_bit_eq unsigned_drop_bit_eq take_bit_eq_mod drop_bit_eq_div
        uint_div_distrib uint_mod_distrib)
  finally show ?thesis .
qed

lemma ts_gs_bits:
  "uint (drop_bit 6 (ucast ((m::u32) AND 0xFF) :: 8 word) AND 0x3) = (uint m div 2 ^ 6) mod 4"
proof -
  have a: "(0xFF::u32) = mask 8" by (simp add: mask_eq_exp_minus_1)
  have b: "(0x3::8 word) = mask 2" by (simp add: mask_eq_exp_minus_1)
  have "uint (drop_bit 6 (ucast (m AND 0xFF) :: 8 word) AND 0x3)
        = uint (take_bit 2 (drop_bit 6 (ucast (take_bit 8 m) :: 8 word)))"
    by (simp add: a b take_bit_eq_mask)
  also have "\<dots> = take_bit 2 (drop_bit 6 (take_bit 8 (uint m)))"
    by (simp add: unsigned_take_bit_eq unsigned_drop_bit_eq unsigned_ucast_eq)
  also have "\<dots> = take_bit 2 (drop_bit 6 (uint m))"
    by (simp add: drop_bit_take_bit)
  also have "\<dots> = (uint m div 2 ^ 6) mod 4"
    by (simp add: take_bit_eq_mod drop_bit_eq_div)
  finally show ?thesis .
qed

lemma ts_gs_is_3: "(uint (m::u32) div 2 ^ 6) mod 4 = 3 \<longleftrightarrow> bit m 7 \<and> bit m 6"
proof -
  have "bit m 6 \<longleftrightarrow> bit (uint m) 6" by (simp add: bit_uint_iff)
  then have b6: "bit m 6 \<longleftrightarrow> odd (uint m div 2 ^ 6)" by (simp only: bit_iff_odd)
  have "bit m 7 \<longleftrightarrow> bit (uint m) 7" by (simp add: bit_uint_iff)
  then have "bit m 7 \<longleftrightarrow> odd (uint m div 2 ^ 7)" by (simp only: bit_iff_odd)
  moreover have "uint m div 2 ^ 7 = (uint m div 2 ^ 6) div 2"
    by (simp add: zdiv_zmult2_eq [symmetric])
  ultimately have b7: "bit m 7 \<longleftrightarrow> odd ((uint m div 2 ^ 6) div 2)" by simp
  show ?thesis unfolding b6 b7 by (rule int_top2_is_3)
qed

text \<open>The driver's stream-id encoding: 511 is "no filter", 256 to 510 are ISI 0 to 254,
  everything else is kept.\<close>

lemma decode_stream_id_values:
  "decode_stream_id 511 = - 1"
  "decode_stream_id 256 = 0"
  "decode_stream_id 510 = 254"
  "decode_stream_id 7 = 7"
  by (simp_all add: decode_stream_id_def)

text \<open>
  C8.  After a locked prescan (with \<open>DTV_MATYPE\<close> available) the reported \<open>is_gse\<close> flag
  is true exactly when the decoded stream id is \<open>\<ge> 0\<close>, the 32-bit MATYPE value is not
  zero, and bits 7 and 6 of its low byte are not both set; \<open>pls_mode\<close> is bits 26 to 27 of
  MATYPE and \<open>pls_code\<close> bits 8 to 25; a MATYPE of 0 is never classified as GSE.
\<close>

theorem read_back_gse_classification:
  "(pr_is_gse (read_back raw_stream_id (Some matype)) \<longleftrightarrow>
      pr_stream_id (read_back raw_stream_id (Some matype)) \<ge> 0 \<and> matype \<noteq> 0
      \<and> \<not> (bit matype 7 \<and> bit matype 6))
   \<and> pr_stream_id (read_back raw_stream_id (Some matype)) = decode_stream_id raw_stream_id
   \<and> pr_pls_mode (read_back raw_stream_id (Some matype)) = (uint matype div 2 ^ 26) mod 4
   \<and> pr_pls_code (read_back raw_stream_id (Some matype)) = (uint matype div 2 ^ 8) mod 2 ^ 18
   \<and> \<not> pr_is_gse (read_back raw_stream_id (Some 0))"
proof -
  have "pr_is_gse (read_back raw_stream_id (Some matype)) \<longleftrightarrow>
      decode_stream_id raw_stream_id \<ge> 0 \<and> matype \<noteq> 0
      \<and> (uint matype div 2 ^ 6) mod 4 \<noteq> 3"
    unfolding read_back_def Let_def by (simp only: option.case prescan_readback.simps ts_gs_bits)
  moreover have "pr_stream_id (read_back raw_stream_id (Some matype)) = decode_stream_id raw_stream_id"
    unfolding read_back_def Let_def by (simp only: option.case prescan_readback.simps)
  moreover have "pr_pls_mode (read_back raw_stream_id (Some matype)) = (uint matype div 2 ^ 26) mod 4"
    unfolding read_back_def Let_def by (simp only: option.case prescan_readback.simps pls_mode_bits)
  moreover have "pr_pls_code (read_back raw_stream_id (Some matype)) = (uint matype div 2 ^ 8) mod 2 ^ 18"
    unfolding read_back_def Let_def by (simp only: option.case prescan_readback.simps pls_code_bits)
  moreover have "\<not> pr_is_gse (read_back raw_stream_id (Some 0))"
    by (simp add: read_back_def Let_def)
  ultimately show ?thesis
    using ts_gs_is_3 [of matype] by simp
qed

subsection \<open>Prescan search range\<close>

text \<open>
  C2.  Claimed: the search range submitted to the driver is \<open>max (SR / 2) 8 000 000\<close> and
  never below 8 MHz.  The code takes \<open>SR / 2\<close> as soon as \<open>SR > 8 000 000\<close>, so for an
  estimate between 8 and 16 Msym/s the range is below the 8 MHz floor its own comment
  names.  For the pending peak \<open>peak_10M\<close> (estimate 10 Msym/s) the third property of the
  tune transaction is a search range of 5 000 000, where the claimed formula gives
  8 000 000.
\<close>

theorem prescan_search_range_below_floor:
  "prescan_est_symbol_rate [peak_10M] 11012000 CHR ''H'' = 10000000
   \<and> prescan_search_range 10000000 = 5000000
   \<and> prescan_tune_props 10000000 1262000 ! 2 = DTV_SEARCH_RANGE 5000000
   \<and> max (10000000 div 2) 8000000 = (8000000::u32)"
  by code_simp

text \<open>With no matching peak the estimate is the default 22 Msym/s and the range 11 MHz.\<close>

lemma prescan_default_estimate:
  "prescan_est_symbol_rate [] frequency pol = 22000000
   \<and> prescan_search_range 22000000 = 11000000"
  by (simp add: prescan_search_range_def)

text \<open>The submitted range agrees with \<open>max (SR / 2) 8 000 000\<close> exactly for estimates up
  to 8 Msym/s and from 16 Msym/s on.\<close>

lemma prescan_search_range_is_max_iff:
  "prescan_search_range sr = max (sr div 2) 8000000 \<longleftrightarrow> sr \<le> 8000000 \<or> 16000000 \<le> sr"
proof (cases "sr \<le> 8000000")
  case True
  then have "unat sr \<le> 8000000" by (simp add: word_le_nat_alt)
  then have "unat (sr div 2) \<le> 8000000" by (simp add: unat_div)
  then have "sr div 2 \<le> 8000000" by (simp add: word_le_nat_alt)
  moreover from True have "\<not> sr > 8000000" by (simp add: not_less)
  ultimately show ?thesis using True by (simp add: prescan_search_range_def max_def)
next
  case False
  then have gt: "sr > 8000000" by simp
  have "sr div 2 \<ge> 8000000 \<longleftrightarrow> sr \<ge> 16000000"
    by (simp add: word_le_nat_alt unat_div) linarith
  with gt False show ?thesis by (auto simp: prescan_search_range_def max_def)
qed

subsection \<open>Deduplication of driver candidates\<close>

text \<open>
  C7.  Claimed: after the deduplication no two surviving candidates are less than
  2000 kHz apart.  The loop overwrites a kept entry in place with a stronger candidate
  near it, and does not compare the moved entry with the other kept entries.  For the
  candidates \<open>cand_a\<close> (11 010 000 kHz), \<open>cand_b\<close> (11 013 000 kHz) and then the stronger
  \<open>cand_c\<close> (11 011 500 kHz), \<open>cand_c\<close> replaces \<open>cand_a\<close> and survives together with
  \<open>cand_b\<close>, 1500 kHz away.
\<close>

theorem dedup_leaves_close_pair:
  "dedup_driver_peaks [cand_a, cand_b, cand_c] = [cand_c, cand_b]
   \<and> freq_diff (sp_frequency cand_c) (sp_frequency cand_b) = 1500
   \<and> (1500::u32) < dedupe_thresh"
  by code_simp

text \<open>The scenario of three candidates within one window: only the strongest survives.\<close>

lemma dedup_three_in_window:
  "dedup_driver_peaks
     [\<lparr>sp_frequency = 11012000, sp_symbol_rate = 0, sp_snr = 0, sp_level = - 4000\<rparr>,
      \<lparr>sp_frequency = 11012500, sp_symbol_rate = 0, sp_snr = 0, sp_level = - 3900\<rparr>,
      \<lparr>sp_frequency = 11013800, sp_symbol_rate = 0, sp_snr = 0, sp_level = - 4100\<rparr>]
   = [\<lparr>sp_frequency = 11012500, sp_symbol_rate = 0, sp_snr = 0, sp_level = - 3900\<rparr>]"
  by code_simp

subsection \<open>Order of the reported peaks\<close>

lemma bs_peaks_add_peaks:
  "bs_peaks (add_peaks muxes pol_is_v driver_peaks bs)
   = rev (map (new_peak muxes pol_is_v) driver_peaks) @ bs_peaks bs"
  unfolding add_peaks_def
  by (induction driver_peaks arbitrary: bs) (simp_all add: add_peak_def)

lemma new_peak_fields:
  "bp_frequency (new_peak muxes pol_is_v dp) = sp_frequency dp"
  "bp_symbol_rate (new_peak muxes pol_is_v dp) = sp_symbol_rate dp"
  "bp_level (new_peak muxes pol_is_v dp) = sp_level dp"
  "bp_snr (new_peak muxes pol_is_v dp) = sp_snr dp"
  by (simp_all add: new_peak_def Let_def split: option.splits)

lemma report_peak_fields:
  "rp_frequency (fst (report_peak muxes peak)) = bp_frequency peak"
  "rp_symbol_rate (fst (report_peak muxes peak)) = bp_symbol_rate peak"
  "rp_level (fst (report_peak muxes peak)) = bp_level peak"
  "rp_snr (fst (report_peak muxes peak)) = bp_snr peak"
  by (simp_all add: report_peak_def Let_def)

text \<open>
  C5.  Claimed: the peaks operation lists the candidates in the order in which the worker
  inserted them.  The worker inserts at the head of the list and the report walks the
  list from the head: after inserting \<open>cand_a\<close> and then \<open>cand_b\<close> into a fresh session
  the report lists \<open>cand_b\<close> first.
\<close>

theorem peaks_report_latest_first_example:
  "map rp_frequency
     (fst (linuxdvb_blindscan_peaks []
        (add_peaks [] False [cand_a, cand_b]
           (linuxdvb_blindscan_start 10700000 11700000 CHR ''H'' None))))
     = [11013000, 11010000]
   \<and> map sp_frequency [cand_a, cand_b] = [11010000, 11013000]"
  by code_simp

text \<open>
  C5, as the code has it.  For every session, the list returned by the peaks operation
  presents the candidate peaks in the reverse of the order in which the worker inserted
  them: the candidates of the latest insertion loop come first, last inserted first,
  followed by what the report listed before.
\<close>

theorem peaks_report_reverse_insertion_order:
  "map (\<lambda>r. (rp_frequency r, rp_symbol_rate r, rp_level r, rp_snr r))
     (fst (linuxdvb_blindscan_peaks muxes' (add_peaks muxes pol_is_v driver_peaks bs)))
   = rev (map (\<lambda>d. (sp_frequency d, sp_symbol_rate d, sp_level d, sp_snr d)) driver_peaks)
     @ map (\<lambda>r. (rp_frequency r, rp_symbol_rate r, rp_level r, rp_snr r))
         (fst (linuxdvb_blindscan_peaks muxes' bs))"
  by (simp add: linuxdvb_blindscan_peaks_def Let_def bs_peaks_add_peaks rev_map comp_def
      report_peak_fields new_peak_fields)

section \<open>Claims about the worker\<close>

subsection \<open>Progress arithmetic\<close>






subsection \<open>Unfolding the slice loop\<close>





subsection \<open>What leaves the log alone\<close>



subsection \<open>One slot\<close>


subsection \<open>The invariant of the log\<close>






subsection \<open>The loops\<close>




subsection \<open>The worker\<close>



subsection \<open>Evaluations of the worker\<close>






subsection \<open>A plan without bands\<close>





subsection \<open>An empty range\<close>















end
